theory Spec2Isabelle
  imports Main "HOL-Library.Multiset" "HOL-Library.Char_ord" "HOL-Library.List_Lexorder"
begin

section \<open>The hosts table model of LEGION2 (ui/models/hostmodels.py)\<close>

subsection \<open>Python values, errors and host records\<close>

text \<open>
  The values a host field can hold: \<open>None\<close>, a bool, an int (unbounded) or a str.
  A str is a list of 8-bit characters, read as the code points 0 to 255; the only case
  folding that matters for the patterns below is that of the ASCII letters.
\<close>

datatype pyval = PNone | PBool bool | PInt int | PStr string

datatype py_error = IndexError | TypeError | ValueError | AttributeError

text \<open>
  A row of the table is a dict (an association list, the first binding of a key wins),
  a tuple, or a list (the constructor's default table is \<open>[[]]\<close>, one empty list).
\<close>

datatype host = HDict "(string \<times> pyval) list" | HTuple "pyval list" | HList "pyval list"

text \<open>\<open>host.get(key)\<close>: the value, or \<open>None\<close> for a missing key.\<close>

definition dict_get :: "(string \<times> pyval) list \<Rightarrow> string \<Rightarrow> pyval" where
  "dict_get kvs k = (case map_of kvs k of None \<Rightarrow> PNone | Some v \<Rightarrow> v)"

text \<open>\<open>host[i]\<close> for a non-negative constant index: out of range raises IndexError.\<close>

definition seq_index :: "pyval list \<Rightarrow> nat \<Rightarrow> py_error + pyval" where
  "seq_index xs i = (if i < length xs then Inr (xs ! i) else Inl IndexError)"

text \<open>Truthiness (\<open>not x\<close>, \<open>x or y\<close>), \<open>==\<close>, \<open>+\<close> and \<open>str()\<close> on these values.\<close>

fun truthy :: "pyval \<Rightarrow> bool" where
  "truthy PNone = False"
| "truthy (PBool b) = b"
| "truthy (PInt i) = (i \<noteq> 0)"
| "truthy (PStr s) = (s \<noteq> [])"

definition py_or :: "pyval \<Rightarrow> pyval \<Rightarrow> pyval" where
  "py_or x y = (if truthy x then x else y)"

fun num_of :: "pyval \<Rightarrow> int option" where
  "num_of (PBool b) = Some (if b then 1 else 0)"
| "num_of (PInt i) = Some i"
| "num_of _ = None"

fun py_eq :: "pyval \<Rightarrow> pyval \<Rightarrow> bool" where
  "py_eq PNone y = (y = PNone)"
| "py_eq (PStr s) y = (y = PStr s)"
| "py_eq x y = (num_of y \<noteq> None \<and> num_of x = num_of y)"

fun py_add :: "pyval \<Rightarrow> pyval \<Rightarrow> py_error + pyval" where
  "py_add (PStr s) (PStr t) = Inr (PStr (s @ t))"
| "py_add x y =
     (case (num_of x, num_of y) of
        (Some a, Some b) \<Rightarrow> Inr (PInt (a + b))
      | _ \<Rightarrow> Inl TypeError)"

definition digit_char :: "nat \<Rightarrow> char" where
  "digit_char d = ''0123456789'' ! d"

function nat_str :: "nat \<Rightarrow> string" where
  "nat_str n = (if n < 10 then [digit_char n] else nat_str (n div 10) @ [digit_char (n mod 10)])"
  by pat_completeness auto
termination
  by (relation "measure (\<lambda>n. n)") auto

declare nat_str.simps [simp del]

definition int_str :: "int \<Rightarrow> string" where
  "int_str i = (if i < 0 then CHR ''-'' # nat_str (nat (- i)) else nat_str (nat i))"

fun py_str :: "pyval \<Rightarrow> string" where
  "py_str PNone = ''None''"
| "py_str (PBool b) = (if b then ''True'' else ''False'')"
| "py_str (PInt i) = int_str i"
| "py_str (PStr s) = s"

subsection \<open>getSafeHostField\<close>

definition getSafeHostField :: "host list \<Rightarrow> int \<Rightarrow> string \<Rightarrow> py_error + pyval" where
  "getSafeHostField hs row key =
     (if row < 0 \<or> row \<ge> int (length hs) then Inr PNone
      else case hs ! nat row of
          HDict kvs \<Rightarrow> Inr (dict_get kvs key)
        | HTuple xs \<Rightarrow>
            (if key = ''ip'' then seq_index xs 0
             else if key = ''id'' then seq_index xs 1
             else Inr PNone)
        | HList xs \<Rightarrow> Inr PNone)"


subsection \<open>Regular expressions of the icon branch\<close>

text \<open>
  The patterns of \<open>data\<close> are sequences of literal characters and character classes
  (\<open>[lL]inux\<close>), searched with \<open>re.I\<close>. A pattern is a list of classes, a literal
  being a class of one character; under \<open>re.I\<close> a class accepts a character when
  their lower-case forms agree.
\<close>

definition lower_char :: "char \<Rightarrow> char" where
  "lower_char c =
     (case map_of (zip ''ABCDEFGHIJKLMNOPQRSTUVWXYZ'' ''abcdefghijklmnopqrstuvwxyz'') c of
        None \<Rightarrow> c | Some d \<Rightarrow> d)"

type_synonym regex = "string list"

fun match_here :: "regex \<Rightarrow> string \<Rightarrow> bool" where
  "match_here [] s = True"
| "match_here (cls # p) [] = False"
| "match_here (cls # p) (c # s) =
     (lower_char c \<in> set (map lower_char cls) \<and> match_here p s)"

fun re_search_I :: "regex \<Rightarrow> string \<Rightarrow> bool" where
  "re_search_I p [] = match_here p []"
| "re_search_I p (c # s) = (match_here p (c # s) \<or> re_search_I p s)"

definition re_linux :: regex where "re_linux = [''lL'', ''i'', ''n'', ''u'', ''x'']"
definition re_windows :: regex where
  "re_windows = [''wW'', ''i'', ''n'', ''d'', ''o'', ''w'', ''s'']"
definition re_cisco :: regex where "re_cisco = [''cC'', ''i'', ''s'', ''c'', ''o'']"
definition re_hp :: regex where "re_hp = [''H'', ''P'', '' '']"
definition re_vxworks :: regex where
  "re_vxworks = [''vV'', ''x'', ''wW'', ''o'', ''r'', ''k'', ''s'']"
definition re_vmware :: regex where
  "re_vmware = [''vV'', ''m'', ''wW'', ''a'', ''r'', ''e'']"

subsection \<open>data\<close>

datatype role = DecorationRole | DisplayRole | FontRole | OtherRole

text \<open>
  What \<open>data\<close> returns: an icon (by its file), a font (strike-out, italic), or a plain
  Python value; falling off the end of the method returns \<open>None\<close>.
\<close>

datatype qobj = QIcon string | QFont bool bool | PyVal pyval

definition os_icon :: "pyval \<Rightarrow> py_error + qobj" where
  "os_icon os_string =
     (if \<not> truthy os_string then Inr (QIcon ''./images/question-icon.png'')
      else case os_string of
          PStr s \<Rightarrow>
            (if re_search_I re_linux s then Inr (QIcon ''./images/linux-icon.png'')
             else if re_search_I re_windows s then Inr (QIcon ''./images/windows-icon.png'')
             else if re_search_I re_cisco s then Inr (QIcon ''./images/cisco-big.jpg'')
             else if re_search_I re_hp s then Inr (QIcon ''./images/hp-icon.png'')
             else if re_search_I re_vxworks s then Inr (QIcon ''./images/hp-icon.png'')
             else if re_search_I re_vmware s then Inr (QIcon ''./images/vmware-big.jpg'')
             else Inr (QIcon ''./images/question-icon.png''))
        | _ \<Rightarrow> Inl TypeError)"

definition field_value :: "host list \<Rightarrow> int \<Rightarrow> string \<Rightarrow> py_error + qobj" where
  "field_value hs row key =
     (case getSafeHostField hs row key of Inl e \<Rightarrow> Inl e | Inr v \<Rightarrow> Inr (PyVal v))"

definition address_value :: "host list \<Rightarrow> int \<Rightarrow> py_error + qobj" where
  "address_value hs row =
     (case getSafeHostField hs row ''hostname'' of
        Inl e \<Rightarrow> Inl e
      | Inr hostname0 \<Rightarrow>
     (case getSafeHostField hs row ''ip'' of
        Inl e \<Rightarrow> Inl e
      | Inr ip0 \<Rightarrow>
          (let ip = (if ip0 \<noteq> PNone then ip0 else PStr '''');
               hostname = (if hostname0 \<noteq> PNone then hostname0 else PStr '''')
           in if \<not> py_eq hostname (PStr '''') then
                (case py_add ip (PStr '' ('') of
                   Inl e \<Rightarrow> Inl e
                 | Inr a \<Rightarrow>
                (case py_add a hostname of
                   Inl e \<Rightarrow> Inl e
                 | Inr b \<Rightarrow>
                (case py_add b (PStr '')'') of
                   Inl e \<Rightarrow> Inl e
                 | Inr value \<Rightarrow> Inr (PyVal value))))
              else Inr (PyVal ip))))"

definition display_value :: "host list \<Rightarrow> int \<Rightarrow> int \<Rightarrow> py_error + qobj" where
  "display_value hs row column =
     (if column = 0 then field_value hs row ''id''
      else if column = 2 then field_value hs row ''osAccuracy''
      else if column = 3 then address_value hs row
      else if column = 4 then field_value hs row ''ipv4''
      else if column = 5 then field_value hs row ''ipv6''
      else if column = 6 then field_value hs row ''macaddr''
      else if column = 7 then field_value hs row ''status''
      else if column = 8 then field_value hs row ''hostname''
      else if column = 9 then field_value hs row ''vendor''
      else if column = 10 then field_value hs row ''uptime''
      else if column = 11 then field_value hs row ''lastboot''
      else if column = 12 then field_value hs row ''distance''
      else if column = 13 then field_value hs row ''checked''
      else if column = 14 then field_value hs row ''state''
      else if column = 15 then field_value hs row ''count''
      else Inr (PyVal (PStr ''Not set in view model'')))"

definition font_value :: "host list \<Rightarrow> int \<Rightarrow> int \<Rightarrow> py_error + qobj" where
  "font_value hs row column =
     (if column \<noteq> 3 then Inr (PyVal PNone)
      else case getSafeHostField hs row ''checked'' of
          Inl e \<Rightarrow> Inl e
        | Inr v \<Rightarrow> if py_eq v (PStr ''True'') then Inr (QFont True True) else Inr (PyVal PNone))"

definition data :: "host list \<Rightarrow> int \<Rightarrow> int \<Rightarrow> role \<Rightarrow> py_error + qobj" where
  "data hs row column r =
     (case r of
        DecorationRole \<Rightarrow>
          (if column = 1 then
             (case getSafeHostField hs row ''osMatch'' of
                Inl e \<Rightarrow> Inl e
              | Inr os_string \<Rightarrow> os_icon os_string)
           else Inr (PyVal PNone))
      | DisplayRole \<Rightarrow> display_value hs row column
      | FontRole \<Rightarrow> font_value hs row column
      | OtherRole \<Rightarrow> Inr (PyVal PNone))"

subsection \<open>Lookups by address\<close>

text \<open>
  Both lookups run \<open>for i in range(len(self._hosts))\<close>; the first returns the row's
  \<open>checked\<close> field at the first match on \<open>str()\<close> of both sides and falls off the
  loop (returning \<open>None\<close>) without one, the second returns the first row whose field
  is \<open>==\<close> to the query, or \<open>None\<close>.
\<close>

fun checkStatus_loop :: "host list \<Rightarrow> pyval \<Rightarrow> nat list \<Rightarrow> py_error + pyval" where
  "checkStatus_loop hs ip [] = Inr PNone"
| "checkStatus_loop hs ip (i # rest) =
     (case getSafeHostField hs (int i) ''ip'' of
        Inl e \<Rightarrow> Inl e
      | Inr v \<Rightarrow>
          if py_str v = py_str ip then getSafeHostField hs (int i) ''checked''
          else checkStatus_loop hs ip rest)"

definition getHostCheckStatusForIp :: "host list \<Rightarrow> pyval \<Rightarrow> py_error + pyval" where
  "getHostCheckStatusForIp hs ip = checkStatus_loop hs ip [0..<length hs]"

fun rowForIp_loop :: "host list \<Rightarrow> pyval \<Rightarrow> nat list \<Rightarrow> py_error + nat option" where
  "rowForIp_loop hs ip [] = Inr None"
| "rowForIp_loop hs ip (i # rest) =
     (case getSafeHostField hs (int i) ''ip'' of
        Inl e \<Rightarrow> Inl e
      | Inr v \<Rightarrow> if py_eq v ip then Inr (Some i) else rowForIp_loop hs ip rest)"

definition getRowForIp :: "host list \<Rightarrow> pyval \<Rightarrow> py_error + nat option" where
  "getRowForIp hs ip = rowForIp_loop hs ip [0..<length hs]"

definition getHostCheckStatusForRow :: "host list \<Rightarrow> int \<Rightarrow> py_error + pyval" where
  "getHostCheckStatusForRow hs row = getSafeHostField hs row ''checked''"

subsection \<open>sort and sortByOS\<close>

datatype sort_order = AscendingOrder | DescendingOrder

datatype signal = LayoutAboutToBeChanged | LayoutChanged

text \<open>
  The state \<open>sort\<close> works on: the table, the signals emitted so far, each with the table
  its receivers see at that moment, and the records handed to \<open>log.error\<close>.
\<close>

record model =
  hosts :: "host list"
  emitted :: "(signal \<times> host list) list"
  logged :: "(host \<times> py_error) list"

definition emit :: "signal \<Rightarrow> model \<Rightarrow> model" where
  "emit s st = st\<lparr>emitted := emitted st @ [(s, hosts st)]\<rparr>"

text \<open>
  \<open>list.sort(key=..., reverse=...)\<close> on keys already computed: a stable sort on the
  keys; with \<open>reverse\<close> the list is reversed, sorted and reversed again, which keeps
  equal keys in their first order.
\<close>

definition list_sort :: "('k::linorder) list \<Rightarrow> 'a list \<Rightarrow> bool \<Rightarrow> 'a list" where
  "list_sort ks xs reverse =
     (if reverse then rev (map snd (sort_key fst (rev (zip ks xs))))
      else map snd (sort_key fst (zip ks xs)))"

text \<open>
  \<open>IP2Int\<close> comes from \<open>app.auxiliary\<close>, whose source is not at hand: \<open>sort\<close> takes
  it as a parameter that raises, returns \<open>None\<close> or returns an int.
\<close>

type_synonym ip2int = "pyval \<Rightarrow> py_error + int option"

definition host_ip :: "host \<Rightarrow> py_error + pyval" where
  "host_ip h =
     (case h of
        HDict kvs \<Rightarrow> Inr (dict_get kvs ''ip'')
      | HTuple xs \<Rightarrow> seq_index xs 0
      | HList xs \<Rightarrow> seq_index xs 0)"

text \<open>The key of one record, with what the call logs; \<open>host[0]\<close> stands outside the \<open>try\<close>.\<close>

definition ip_key :: "ip2int \<Rightarrow> host \<Rightarrow> py_error + (int \<times> (host \<times> py_error) list)" where
  "ip_key IP2Int h =
     (case host_ip h of
        Inl e \<Rightarrow> Inl e
      | Inr ip \<Rightarrow>
          (case IP2Int ip of
             Inl e \<Rightarrow> Inr (0, [(h, e)])
           | Inr None \<Rightarrow> Inr (0, [])
           | Inr (Some result) \<Rightarrow> Inr (result, [])))"

text \<open>
  The keys of all records, in order, as \<open>list.sort\<close> computes them before it compares
  anything: the first exception ends the call, after the log entries made so far.
\<close>

fun ip_keys :: "ip2int \<Rightarrow> host list \<Rightarrow> (py_error + int list) \<times> (host \<times> py_error) list" where
  "ip_keys IP2Int [] = (Inr [], [])"
| "ip_keys IP2Int (h # hs) =
     (case ip_key IP2Int h of
        Inl e \<Rightarrow> (Inl e, [])
      | Inr (k, l) \<Rightarrow>
          (case ip_keys IP2Int hs of
             (Inl e, l') \<Rightarrow> (Inl e, l @ l')
           | (Inr ks, l') \<Rightarrow> (Inr (k # ks), l @ l')))"

text \<open>
  The keys of \<open>sortByOS\<close> are \<open>osMatch or ''\<close>: strings, or numbers where a record holds
  one. Strings compare with strings and numbers with numbers; any other comparison
  raises TypeError, and a sort of two or more keys compares every key with another.
\<close>

fun os_keys :: "host list \<Rightarrow> nat list \<Rightarrow> py_error + pyval list" where
  "os_keys hs [] = Inr []"
| "os_keys hs (i # rest) =
     (case getSafeHostField hs (int i) ''osMatch'' of
        Inl e \<Rightarrow> Inl e
      | Inr v \<Rightarrow>
          (case os_keys hs rest of
             Inl e \<Rightarrow> Inl e
           | Inr vs \<Rightarrow> Inr (py_or v (PStr '''') # vs)))"

fun str_of :: "pyval \<Rightarrow> string option" where
  "str_of (PStr s) = Some s"
| "str_of _ = None"

definition sort_pairs :: "pyval list \<Rightarrow> host list \<Rightarrow> bool \<Rightarrow> py_error + host list" where
  "sort_pairs ks xs reverse =
     (if length ks \<le> 1 then Inr xs
      else if list_all (\<lambda>k. str_of k \<noteq> None) ks
        then Inr (list_sort (map (\<lambda>k. case str_of k of Some s \<Rightarrow> s | None \<Rightarrow> []) ks) xs reverse)
      else if list_all (\<lambda>k. num_of k \<noteq> None) ks
        then Inr (list_sort (map (\<lambda>k. case num_of k of Some i \<Rightarrow> i | None \<Rightarrow> 0) ks) xs reverse)
      else Inl TypeError)"

definition sortByOS :: "model \<Rightarrow> sort_order \<Rightarrow> py_error option \<times> model" where
  "sortByOS st order =
     (case os_keys (hosts st) [0..<length (hosts st)] of
        Inl e \<Rightarrow> (Some e, st)
      | Inr array \<Rightarrow>
          (case sort_pairs array (hosts st) (order = DescendingOrder) of
             Inl e \<Rightarrow> (Some e, st)
           | Inr sorted_hosts \<Rightarrow> (None, emit LayoutChanged (st\<lparr>hosts := sorted_hosts\<rparr>))))"

text \<open>
  The method \<open>sort\<close> (named \<open>sort_hosts\<close> here, \<open>sort\<close> being taken): the error it
  raises, if any, and the state it leaves.
\<close>

definition sort_hosts :: "ip2int \<Rightarrow> model \<Rightarrow> int \<Rightarrow> sort_order \<Rightarrow> py_error option \<times> model" where
  "sort_hosts IP2Int st Ncol order =
     (let st1 = emit LayoutAboutToBeChanged st in
      if Ncol = 0 \<or> Ncol = 3 then
        (case ip_keys IP2Int (hosts st1) of
           (Inl e, l) \<Rightarrow> (Some e, st1\<lparr>logged := logged st1 @ l\<rparr>)
         | (Inr ks, l) \<Rightarrow>
             (None, emit LayoutChanged
                (st1\<lparr>logged := logged st1 @ l,
                     hosts := list_sort ks (hosts st1) (order = DescendingOrder)\<rparr>)))
      else if Ncol = 1 then sortByOS st1 order
      else (None, emit LayoutChanged st1))"

subsection \<open>Reference notions the properties are stated with\<close>

text \<open>
  Case-insensitive substring test, written directly: \<open>p\<close> occurs in \<open>s\<close> when both are
  lower-cased.
\<close>

fun prefix_ci :: "string \<Rightarrow> string \<Rightarrow> bool" where
  "prefix_ci [] s = True"
| "prefix_ci (p # ps) [] = False"
| "prefix_ci (p # ps) (c # s) = (lower_char p = lower_char c \<and> prefix_ci ps s)"

fun contains_ci :: "string \<Rightarrow> string \<Rightarrow> bool" where
  "contains_ci p [] = prefix_ci p []"
| "contains_ci p (c # s) = (prefix_ci p (c # s) \<or> contains_ci p s)"

text \<open>A class of a pattern that accepts, under \<open>re.I\<close>, exactly the letter \<open>c\<close>.\<close>

definition class_of :: "string \<Rightarrow> char \<Rightarrow> bool" where
  "class_of cls c = (lower_char ` set cls = {lower_char c})"

text \<open>The icon a non-absent OS string gets, as a priority list of substrings.\<close>

definition icon_by_name :: "string \<Rightarrow> string" where
  "icon_by_name s =
     (if s = [] then ''./images/question-icon.png''
      else if contains_ci ''linux'' s then ''./images/linux-icon.png''
      else if contains_ci ''windows'' s then ''./images/windows-icon.png''
      else if contains_ci ''cisco'' s then ''./images/cisco-big.jpg''
      else if contains_ci ''HP '' s then ''./images/hp-icon.png''
      else if contains_ci ''vxworks'' s then ''./images/hp-icon.png''
      else if contains_ci ''vmware'' s then ''./images/vmware-big.jpg''
      else ''./images/question-icon.png'')"

text \<open>The field each display column shows, for the columns that show one field.\<close>

definition column_key :: "int \<Rightarrow> string option" where
  "column_key column =
     map_of [(0, ''id''), (2, ''osAccuracy''), (4, ''ipv4''), (5, ''ipv6''),
             (6, ''macaddr''), (7, ''status''), (8, ''hostname''), (9, ''vendor''),
             (10, ''uptime''), (11, ''lastboot''), (12, ''distance''), (13, ''checked''),
             (14, ''state''), (15, ''count'')] column"

text \<open>A field that is a string or absent, and the text it stands for.\<close>

fun is_text :: "pyval \<Rightarrow> bool" where
  "is_text PNone = True"
| "is_text (PStr s) = True"
| "is_text _ = False"

fun text_of :: "pyval \<Rightarrow> string" where
  "text_of (PStr s) = s"
| "text_of _ = []"

text \<open>A record of one of the two shapes of the data model: a dict, or a tuple \<open>(ip, id)\<close>.\<close>

fun record_ok :: "host \<Rightarrow> bool" where
  "record_ok (HDict kvs) = True"
| "record_ok (HTuple xs) = (length xs = 2)"
| "record_ok (HList xs) = False"


text \<open>
  The key a record is sorted by on the address columns: what \<open>IP2Int\<close> returns for
  its ip, and 0 where it raises or returns \<open>None\<close>; and what such a sort logs.
\<close>

definition ip_sort_key :: "ip2int \<Rightarrow> host \<Rightarrow> int" where
  "ip_sort_key IP2Int h =
     (case host_ip h of
        Inl e \<Rightarrow> 0
      | Inr ip \<Rightarrow> (case IP2Int ip of Inr (Some r) \<Rightarrow> r | _ \<Rightarrow> 0))"

definition ip_log :: "ip2int \<Rightarrow> host \<Rightarrow> (host \<times> py_error) list" where
  "ip_log IP2Int h =
     (case host_ip h of
        Inl e \<Rightarrow> []
      | Inr ip \<Rightarrow> (case IP2Int ip of Inl e \<Rightarrow> [(h, e)] | _ \<Rightarrow> []))"

text \<open>The table a model built with no arguments holds: \<open>hosts = [[]]\<close>.\<close>

definition default_model :: model where
  "default_model = \<lparr>hosts = [HList []], emitted = [], logged = []\<rparr>"

text \<open>
  Modelled from the spec: IP2Int is defined in app.auxiliary, which is not among the
  sources. The spec describes it as parsing a dotted-quad address into its 32-bit value,
  an unparsable or absent address being an error; here that error is an exception.

  \<open>split_dot\<close> is \<open>s.split('.')\<close>, \<open>octet\<close> reads one decimal part of at most 255.
\<close>

fun split_dot :: "string \<Rightarrow> string list" where
  "split_dot [] = [[]]"
| "split_dot (c # cs) =
     (if c = CHR ''.'' then [] # split_dot cs
      else case split_dot cs of p # ps \<Rightarrow> (c # p) # ps | [] \<Rightarrow> [[c]])"

definition digit_val :: "char \<Rightarrow> nat option" where
  "digit_val c = map_of (zip ''0123456789'' [0, 1, 2, 3, 4, 5, 6, 7, 8, 9]) c"

fun digits_val :: "nat \<Rightarrow> string \<Rightarrow> nat option" where
  "digits_val acc [] = Some acc"
| "digits_val acc (c # cs) =
     (case digit_val c of None \<Rightarrow> None | Some d \<Rightarrow> digits_val (acc * 10 + d) cs)"

definition octet :: "string \<Rightarrow> nat option" where
  "octet s =
     (if s = [] then None
      else case digits_val 0 s of
          None \<Rightarrow> None
        | Some n \<Rightarrow> if n \<le> 255 then Some n else None)"

definition quad_value :: "nat list \<Rightarrow> nat" where
  "quad_value ns = foldl (\<lambda>acc n. acc * 256 + n) 0 ns"

text \<open>
  Modelled from the spec: IP2Int itself, on the helpers above. Anything but four decimal
  parts of at most 255 raises ValueError, a value that is no string AttributeError.
\<close>

definition IP2Int_model :: ip2int where
  "IP2Int_model v =
     (case v of
        PStr s \<Rightarrow>
          (case those (map octet (split_dot s)) of
             None \<Rightarrow> Inl ValueError
           | Some ns \<Rightarrow>
               if length ns = 4 then Inr (Some (int (quad_value ns))) else Inl ValueError)
      | _ \<Rightarrow> Inl AttributeError)"

section \<open>Properties\<close>

subsection \<open>Field access\<close>


lemma getSafeHostField_other_key:
  assumes "key \<noteq> ''ip''" and "key \<noteq> ''id''"
  shows "\<exists>v. getSafeHostField hs row key = Inr v"
  using assms by (simp add: getSafeHostField_def split: host.split)






subsection \<open>The icon of the OS column\<close>

lemma prefix_ci_iff:
  "prefix_ci p s = (\<exists>v. map lower_char s = map lower_char p @ v)"
  by (induction p s rule: prefix_ci.induct) auto

lemma contains_ci_iff:
  "contains_ci p s = (\<exists>u v. map lower_char s = u @ map lower_char p @ v)"
proof (induction s)
  case Nil
  then show ?case by (cases p) auto
next
  case (Cons c s)
  show ?case
  proof
    assume "contains_ci p (c # s)"
    then consider "prefix_ci p (c # s)" | "contains_ci p s" by auto
    then show "\<exists>u v. map lower_char (c # s) = u @ map lower_char p @ v"
    proof cases
      case 1
      then obtain v where "map lower_char (c # s) = map lower_char p @ v"
        using prefix_ci_iff by blast
      then have "map lower_char (c # s) = [] @ map lower_char p @ v" by simp
      then show ?thesis by blast
    next
      case 2
      then obtain u v where "map lower_char s = u @ map lower_char p @ v"
        using Cons.IH by blast
      then have "map lower_char (c # s) = (lower_char c # u) @ map lower_char p @ v"
        by simp
      then show ?thesis by blast
    qed
  next
    assume "\<exists>u v. map lower_char (c # s) = u @ map lower_char p @ v"
    then obtain u v where uv: "map lower_char (c # s) = u @ map lower_char p @ v"
      by blast
    show "contains_ci p (c # s)"
    proof (cases u)
      case Nil
      with uv have "prefix_ci p (c # s)" using prefix_ci_iff by auto
      then show ?thesis by simp
    next
      case (Cons d u')
      with uv have "map lower_char s = u' @ map lower_char p @ v" by simp
      then have "contains_ci p s" using Cons.IH by blast
      then show ?thesis by simp
    qed
  qed
qed

lemma match_here_prefix_ci:
  "list_all2 class_of pat p \<Longrightarrow> match_here pat s = prefix_ci p s"
proof (induction pat s arbitrary: p rule: match_here.induct)
  case (1 s)
  then show ?case by simp
next
  case (2 cls pat)
  then show ?case by (auto simp: list_all2_Cons1)
next
  case (3 cls pat c s)
  then obtain q qs where p: "p = q # qs" "class_of cls q" "list_all2 class_of pat qs"
    by (auto simp: list_all2_Cons1)
  with 3 show ?case by (auto simp: class_of_def)
qed

lemma re_search_I_contains_ci:
  "list_all2 class_of pat p \<Longrightarrow> re_search_I pat s = contains_ci p s"
  by (induction s) (simp_all add: match_here_prefix_ci)

lemma re_linux_ci: "re_search_I re_linux s = contains_ci ''linux'' s"
  by (rule re_search_I_contains_ci) (simp add: re_linux_def class_of_def lower_char_def)

lemma re_windows_ci: "re_search_I re_windows s = contains_ci ''windows'' s"
  by (rule re_search_I_contains_ci) (simp add: re_windows_def class_of_def lower_char_def)

lemma re_cisco_ci: "re_search_I re_cisco s = contains_ci ''cisco'' s"
  by (rule re_search_I_contains_ci) (simp add: re_cisco_def class_of_def lower_char_def)

lemma re_hp_ci: "re_search_I re_hp s = contains_ci ''HP '' s"
  by (rule re_search_I_contains_ci) (simp add: re_hp_def class_of_def lower_char_def)

lemma re_vxworks_ci: "re_search_I re_vxworks s = contains_ci ''vxworks'' s"
  by (rule re_search_I_contains_ci) (simp add: re_vxworks_def class_of_def lower_char_def)

lemma re_vmware_ci: "re_search_I re_vmware s = contains_ci ''vmware'' s"
  by (rule re_search_I_contains_ci) (simp add: re_vmware_def class_of_def lower_char_def)

lemma icon_chain:
  "(if e then Inr (QIcon q) else
    if a1 then Inr (QIcon x1) else if a2 then Inr (QIcon x2) else
    if a3 then Inr (QIcon x3) else if a4 then Inr (QIcon x4) else
    if a5 then Inr (QIcon x5) else if a6 then Inr (QIcon x6) else
    (Inr (QIcon x7) :: py_error + qobj)) =
   Inr (QIcon (if e then q else if a1 then x1 else if a2 then x2 else if a3 then x3
      else if a4 then x4 else if a5 then x5 else if a6 then x6 else x7))"
  by simp

lemma os_icon_str: "os_icon (PStr s) = Inr (QIcon (icon_by_name s))"
proof -
  have t: "truthy (PStr s) = (s \<noteq> [])" by simp
  show ?thesis
    unfolding os_icon_def icon_by_name_def t pyval.case not_not
      re_linux_ci re_windows_ci re_cisco_ci re_hp_ci re_vxworks_ci re_vmware_ci
    by (rule icon_chain)
qed

lemma os_icon_none: "os_icon PNone = Inr (QIcon ''./images/question-icon.png'')"
  by (simp add: os_icon_def)

lemma icon_range_chain:
  "(if e then q else if a1 then x1 else if a2 then x2 else if a3 then x3
      else if a4 then x4 else if a5 then x4 else if a6 then x6 else q)
    \<in> set [q, x1, x2, x3, x4, x6]"
  by simp

lemma icon_by_name_range:
  "icon_by_name s \<in> set [''./images/question-icon.png'', ''./images/linux-icon.png'',
      ''./images/windows-icon.png'', ''./images/cisco-big.jpg'', ''./images/hp-icon.png'',
      ''./images/vmware-big.jpg'']"
  unfolding icon_by_name_def by (rule icon_range_chain)


lemma data_decoration:
  "getSafeHostField hs row ''osMatch'' = Inr v \<Longrightarrow> data hs row 1 DecorationRole = os_icon v"
  by (simp add: data_def)

text \<open>
  C2 (as amended). The icon branch matches case-insensitive substrings, first match
  first: absent or empty gives the question icon, then linux, windows, cisco, 'HP '
  (with the space), vxworks, vmware, anything else the question icon. The result is
  one of six icons: vxworks has no icon of its own, it is shown with the HP icon.
\<close>

theorem os_icon_priority:
  "os_icon PNone = Inr (QIcon ''./images/question-icon.png'')
   \<and> os_icon (PStr s) = Inr (QIcon (icon_by_name s))
   \<and> icon_by_name s \<in> set [''./images/question-icon.png'', ''./images/linux-icon.png'',
        ''./images/windows-icon.png'', ''./images/cisco-big.jpg'', ''./images/hp-icon.png'',
        ''./images/vmware-big.jpg'']
   \<and> (getSafeHostField hs row ''osMatch'' = Inr v \<longrightarrow>
        data hs row 1 DecorationRole = os_icon v)"
  using os_icon_none os_icon_str icon_by_name_range data_decoration by blast

lemma icon_linux: "icon_by_name ''Linux 5.4'' = ''./images/linux-icon.png''"
  by (simp add: icon_by_name_def lower_char_def)

lemma icon_hp: "icon_by_name ''HP ProCurve'' = ''./images/hp-icon.png''"
  by (simp add: icon_by_name_def lower_char_def)

lemma icon_vxworks: "icon_by_name ''VxWorks'' = ''./images/hp-icon.png''"
  by (simp add: icon_by_name_def lower_char_def)

lemma icon_empty: "icon_by_name [] = ''./images/question-icon.png''"
  by (simp add: icon_by_name_def)

theorem os_icon_priority_witness:
  "data [HDict [(''osMatch'', PStr ''Linux 5.4'')]] 0 1 DecorationRole =
     Inr (QIcon ''./images/linux-icon.png'')
   \<and> os_icon (PStr ''HP ProCurve'') = Inr (QIcon ''./images/hp-icon.png'')
   \<and> os_icon (PStr []) = Inr (QIcon ''./images/question-icon.png'')
   \<and> os_icon PNone = Inr (QIcon ''./images/question-icon.png'')"
proof -
  have f: "getSafeHostField [HDict [(''osMatch'', PStr ''Linux 5.4'')]] 0 ''osMatch'' =
      Inr (PStr ''Linux 5.4'')"
    by (simp add: getSafeHostField_def dict_get_def)
  have "data [HDict [(''osMatch'', PStr ''Linux 5.4'')]] 0 1 DecorationRole =
      os_icon (PStr ''Linux 5.4'')"
    using os_icon_priority [where hs = "[HDict [(''osMatch'', PStr ''Linux 5.4'')]]"
        and row = 0 and v = "PStr ''Linux 5.4''"] f
    by blast
  moreover have "os_icon (PStr ''Linux 5.4'') = Inr (QIcon (icon_by_name ''Linux 5.4''))"
    using os_icon_priority [where s = "''Linux 5.4''"] by blast
  moreover have "os_icon (PStr ''HP ProCurve'') = Inr (QIcon (icon_by_name ''HP ProCurve''))"
    using os_icon_priority [where s = "''HP ProCurve''"] by blast
  moreover have "os_icon (PStr []) = Inr (QIcon (icon_by_name []))"
    using os_icon_priority [where s = "[]"] by blast
  moreover have "os_icon PNone = Inr (QIcon ''./images/question-icon.png'')"
    using os_icon_priority by blast
  ultimately show ?thesis
    by (simp only: icon_linux icon_hp icon_empty simp_thms)
qed

text \<open>
  The claim as stated fails: an OS string with vxworks and no earlier pattern gets the
  very icon an 'HP ' string gets.
\<close>

theorem vxworks_shares_hp_icon:
  "data [HDict [(''osMatch'', PStr ''VxWorks'')]] 0 1 DecorationRole =
     Inr (QIcon ''./images/hp-icon.png'')
   \<and> data [HDict [(''osMatch'', PStr ''HP ProCurve'')]] 0 1 DecorationRole =
     Inr (QIcon ''./images/hp-icon.png'')"
proof -
  have "getSafeHostField [HDict [(''osMatch'', PStr ''VxWorks'')]] 0 ''osMatch'' =
      Inr (PStr ''VxWorks'')"
    by (simp add: getSafeHostField_def dict_get_def)
  then have a: "data [HDict [(''osMatch'', PStr ''VxWorks'')]] 0 1 DecorationRole =
      Inr (QIcon (icon_by_name ''VxWorks''))"
    by (simp only: data_decoration os_icon_str)
  have "getSafeHostField [HDict [(''osMatch'', PStr ''HP ProCurve'')]] 0 ''osMatch'' =
      Inr (PStr ''HP ProCurve'')"
    by (simp add: getSafeHostField_def dict_get_def)
  then have b: "data [HDict [(''osMatch'', PStr ''HP ProCurve'')]] 0 1 DecorationRole =
      Inr (QIcon (icon_by_name ''HP ProCurve''))"
    by (simp only: data_decoration os_icon_str)
  from a b show ?thesis by (simp only: icon_vxworks icon_hp simp_thms)
qed

subsection \<open>Display values\<close>

lemma display_value_key:
  "column_key col = Some key \<Longrightarrow> display_value hs row col = field_value hs row key"
  unfolding column_key_def display_value_def
  by (simp split: if_splits)

lemma address_value_absent:
  assumes "getSafeHostField hs row ''ip'' = Inr PNone"
    and "getSafeHostField hs row ''hostname'' = Inr PNone"
  shows "address_value hs row = Inr (PyVal (PStr ''''))"
  using assms by (simp add: address_value_def)

lemma display_value_no_key:
  assumes "column_key col = None" and "col \<noteq> 3"
  shows "display_value hs row col = Inr (PyVal (PStr ''Not set in view model''))"
proof -
  from assms(1) have "col \<noteq> 0" "col \<noteq> 2" "col \<noteq> 4" "col \<noteq> 5" "col \<noteq> 6" "col \<noteq> 7"
    "col \<noteq> 8" "col \<noteq> 9" "col \<noteq> 10" "col \<noteq> 11" "col \<noteq> 12" "col \<noteq> 13" "col \<noteq> 14"
    "col \<noteq> 15"
    unfolding column_key_def by (auto split: if_splits)
  with assms(2) show ?thesis
    unfolding display_value_def by simp
qed

lemma column_key_table:
  "map column_key [0, 1, 2, 3, 4, 5, 6, 7, 8, 9, 10, 11, 12, 13, 14, 15] =
     [Some ''id'', None, Some ''osAccuracy'', None, Some ''ipv4'', Some ''ipv6'',
      Some ''macaddr'', Some ''status'', Some ''hostname'', Some ''vendor'', Some ''uptime'',
      Some ''lastboot'', Some ''distance'', Some ''checked'', Some ''state'', Some ''count'']"
  by (simp add: column_key_def)

text \<open>
  C3 (as amended). In the display branch only column 3 turns an absent value into the
  empty string. The columns that show one field (0, 2 and 4 to 15, with the fields
  listed) return what getSafeHostField resolves, unchanged, so an absent value comes
  back as None; column 1, like every column without an entry, gives the text of an
  unknown column.
\<close>

theorem display_absent:
  "(column_key col = Some key \<longrightarrow>
      data hs row col DisplayRole =
        (case getSafeHostField hs row key of Inl e \<Rightarrow> Inl e | Inr v \<Rightarrow> Inr (PyVal v)))
   \<and> (column_key col = Some key \<and> getSafeHostField hs row key = Inr PNone \<longrightarrow>
      data hs row col DisplayRole = Inr (PyVal PNone))
   \<and> (getSafeHostField hs row ''ip'' = Inr PNone \<and>
      getSafeHostField hs row ''hostname'' = Inr PNone \<longrightarrow>
      data hs row 3 DisplayRole = Inr (PyVal (PStr '''')))
   \<and> (column_key col = None \<and> col \<noteq> 3 \<longrightarrow>
      data hs row col DisplayRole = Inr (PyVal (PStr ''Not set in view model'')))
   \<and> data hs row 1 DisplayRole = Inr (PyVal (PStr ''Not set in view model''))
   \<and> map column_key [0, 1, 2, 3, 4, 5, 6, 7, 8, 9, 10, 11, 12, 13, 14, 15] =
      [Some ''id'', None, Some ''osAccuracy'', None, Some ''ipv4'', Some ''ipv6'',
       Some ''macaddr'', Some ''status'', Some ''hostname'', Some ''vendor'', Some ''uptime'',
       Some ''lastboot'', Some ''distance'', Some ''checked'', Some ''state'', Some ''count'']"
proof (intro conjI impI)
  assume "column_key col = Some key"
  then show "data hs row col DisplayRole =
      (case getSafeHostField hs row key of Inl e \<Rightarrow> Inl e | Inr v \<Rightarrow> Inr (PyVal v))"
    by (simp add: data_def display_value_key field_value_def)
next
  assume "column_key col = Some key \<and> getSafeHostField hs row key = Inr PNone"
  then show "data hs row col DisplayRole = Inr (PyVal PNone)"
    by (simp add: data_def display_value_key field_value_def)
next
  assume "getSafeHostField hs row ''ip'' = Inr PNone \<and>
      getSafeHostField hs row ''hostname'' = Inr PNone"
  then show "data hs row 3 DisplayRole = Inr (PyVal (PStr ''''))"
    by (simp add: data_def display_value_def address_value_absent)
next
  assume "column_key col = None \<and> col \<noteq> 3"
  then show "data hs row col DisplayRole = Inr (PyVal (PStr ''Not set in view model''))"
    by (simp add: data_def display_value_no_key)
next
  show "data hs row 1 DisplayRole = Inr (PyVal (PStr ''Not set in view model''))"
    by (simp add: data_def display_value_def)
next
  show "map column_key [0, 1, 2, 3, 4, 5, 6, 7, 8, 9, 10, 11, 12, 13, 14, 15] =
      [Some ''id'', None, Some ''osAccuracy'', None, Some ''ipv4'', Some ''ipv6'',
       Some ''macaddr'', Some ''status'', Some ''hostname'', Some ''vendor'', Some ''uptime'',
       Some ''lastboot'', Some ''distance'', Some ''checked'', Some ''state'', Some ''count'']"
    by (rule column_key_table)
qed

theorem display_absent_witness:
  "data [HDict [(''ip'', PStr ''10.0.0.1'')]] 0 9 DisplayRole = Inr (PyVal PNone)
   \<and> data [HDict [(''id'', PInt 7)]] 0 0 DisplayRole = Inr (PyVal (PInt 7))
   \<and> data [] 0 3 DisplayRole = Inr (PyVal (PStr ''''))
   \<and> data [] 0 16 DisplayRole = Inr (PyVal (PStr ''Not set in view model''))"
proof -
  have k: "column_key 9 = Some ''vendor''" "column_key 0 = Some ''id''"
    "column_key 16 = None"
    by (simp_all add: column_key_def)
  have f: "getSafeHostField [HDict [(''ip'', PStr ''10.0.0.1'')]] 0 ''vendor'' = Inr PNone"
    by (simp add: getSafeHostField_def dict_get_def)
  have i: "getSafeHostField [HDict [(''id'', PInt 7)]] 0 ''id'' = Inr (PInt 7)"
    by (simp add: getSafeHostField_def dict_get_def)
  have g: "getSafeHostField [] 0 ''ip'' = Inr PNone"
    "getSafeHostField [] 0 ''hostname'' = Inr PNone"
    by (simp_all add: getSafeHostField_def)
  have 1: "data [HDict [(''ip'', PStr ''10.0.0.1'')]] 0 9 DisplayRole = Inr (PyVal PNone)"
    using display_absent [of 9 "''vendor''" "[HDict [(''ip'', PStr ''10.0.0.1'')]]" 0] k f
    by blast
  have "data [HDict [(''id'', PInt 7)]] 0 0 DisplayRole =
      (case getSafeHostField [HDict [(''id'', PInt 7)]] 0 ''id'' of
         Inl e \<Rightarrow> Inl e | Inr v \<Rightarrow> Inr (PyVal v))"
    using display_absent [of 0 "''id''" "[HDict [(''id'', PInt 7)]]" 0] k by blast
  then have 2: "data [HDict [(''id'', PInt 7)]] 0 0 DisplayRole = Inr (PyVal (PInt 7))"
    by (simp add: i)
  have 3: "data [] 0 3 DisplayRole = Inr (PyVal (PStr ''''))"
    using display_absent [of 9 "''vendor''" "[]" 0] g by blast
  have "(16::int) \<noteq> 3" by simp
  then have 4: "data [] 0 16 DisplayRole = Inr (PyVal (PStr ''Not set in view model''))"
    using display_absent [of 16 "''vendor''" "[]" 0] k by blast
  from 1 2 3 4 show ?thesis by blast
qed

text \<open>
  The claim as stated fails: column 0 of a record without an id is None, not the empty
  string.
\<close>

theorem display_absent_is_none:
  "data [HDict [(''ip'', PStr ''10.0.0.1'')]] 0 0 DisplayRole = Inr (PyVal PNone)
   \<and> data [HDict [(''ip'', PStr ''10.0.0.1'')]] 0 0 DisplayRole \<noteq> Inr (PyVal (PStr ''''))"
  by (simp add: data_def display_value_def field_value_def getSafeHostField_def dict_get_def)


lemma py_add_str: "py_add (PStr s) (PStr t) = Inr (PStr (s @ t))"
  by simp

lemma address_value_text:
  assumes ip: "getSafeHostField hs row ''ip'' = Inr ipv" and "is_text ipv"
    and hn: "getSafeHostField hs row ''hostname'' = Inr hv" and "is_text hv"
  shows "address_value hs row =
     Inr (PyVal (PStr (if text_of hv = [] then text_of ipv
                       else text_of ipv @ '' ('' @ text_of hv @ '')'')))"
proof -
  obtain s where s: "(if ipv \<noteq> PNone then ipv else PStr []) = PStr s" "text_of ipv = s"
    using \<open>is_text ipv\<close> by (cases ipv) auto
  obtain h where h: "(if hv \<noteq> PNone then hv else PStr []) = PStr h" "text_of hv = h"
    using \<open>is_text hv\<close> by (cases hv) auto
  show ?thesis
  proof (cases "h = []")
    case True
    with s h ip hn show ?thesis
      unfolding address_value_def Let_def by simp
  next
    case False
    with s h ip hn show ?thesis
      unfolding address_value_def Let_def by (simp add: py_add_str)
  qed
qed

text \<open>
  C9. For column 3 the display value is the ip string when the hostname is absent or
  empty, and the ip string followed by " (", the hostname and ")" otherwise; an absent
  ip counts as the empty string.
\<close>

theorem address_column:
  assumes "getSafeHostField hs row ''ip'' = Inr ipv" and "is_text ipv"
    and "getSafeHostField hs row ''hostname'' = Inr hv" and "is_text hv"
  shows "data hs row 3 DisplayRole =
     Inr (PyVal (PStr (if text_of hv = [] then text_of ipv
                       else text_of ipv @ '' ('' @ text_of hv @ '')'')))"
  using address_value_text [OF assms] by (simp add: data_def display_value_def)

theorem address_column_witness:
  "data [HDict [(''ip'', PStr ''1.2.3.4''), (''hostname'', PStr ''web'')]] 0 3 DisplayRole =
     Inr (PyVal (PStr ''1.2.3.4 (web)''))
   \<and> data [HDict [(''ip'', PStr ''1.2.3.4''), (''hostname'', PStr '''')]] 0 3 DisplayRole =
     Inr (PyVal (PStr ''1.2.3.4''))
   \<and> data [HDict [(''hostname'', PStr ''web'')]] 0 3 DisplayRole =
     Inr (PyVal (PStr '' (web)''))
   \<and> data [HTuple [PStr ''1.2.3.4'', PInt 7]] 0 3 DisplayRole =
     Inr (PyVal (PStr ''1.2.3.4''))"
proof -
  have a: "data [HDict [(''ip'', PStr ''1.2.3.4''), (''hostname'', PStr ''web'')]] 0 3
      DisplayRole = Inr (PyVal (PStr ''1.2.3.4 (web)''))"
    using address_column [of "[HDict [(''ip'', PStr ''1.2.3.4''), (''hostname'', PStr ''web'')]]"
        0 "PStr ''1.2.3.4''" "PStr ''web''"]
    by (simp add: getSafeHostField_def dict_get_def)
  have b: "data [HDict [(''ip'', PStr ''1.2.3.4''), (''hostname'', PStr '''')]] 0 3
      DisplayRole = Inr (PyVal (PStr ''1.2.3.4''))"
    using address_column [of "[HDict [(''ip'', PStr ''1.2.3.4''), (''hostname'', PStr '''')]]"
        0 "PStr ''1.2.3.4''" "PStr ''''"]
    by (simp add: getSafeHostField_def dict_get_def)
  have c: "data [HDict [(''hostname'', PStr ''web'')]] 0 3 DisplayRole =
      Inr (PyVal (PStr '' (web)''))"
    using address_column [of "[HDict [(''hostname'', PStr ''web'')]]" 0 PNone "PStr ''web''"]
    by (simp add: getSafeHostField_def dict_get_def)
  have d: "data [HTuple [PStr ''1.2.3.4'', PInt 7]] 0 3 DisplayRole =
      Inr (PyVal (PStr ''1.2.3.4''))"
    using address_column [of "[HTuple [PStr ''1.2.3.4'', PInt 7]]" 0 "PStr ''1.2.3.4''" PNone]
    by (simp add: getSafeHostField_def seq_index_def)
  from a b c d show ?thesis by blast
qed

subsection \<open>The font of a checked host\<close>

lemma py_eq_str: "py_eq v (PStr s) = (v = PStr s)"
  by (cases v) auto

lemma getSafeHostField_checked:
  "\<exists>v. getSafeHostField hs row ''checked'' = Inr v"
  by (rule getSafeHostField_other_key) simp_all

lemma font_value_iff:
  "(font_value hs row col = Inr (QFont True True)) =
     (col = 3 \<and> getSafeHostField hs row ''checked'' = Inr (PStr ''True''))"
proof -
  obtain v where v: "getSafeHostField hs row ''checked'' = Inr v"
    using getSafeHostField_checked by blast
  show ?thesis
  proof (cases "col = 3")
    case True
    with v show ?thesis
      unfolding font_value_def by (simp add: py_eq_str)
  next
    case False
    then show ?thesis
      unfolding font_value_def by simp
  qed
qed

lemma font_value_other:
  assumes "getSafeHostField hs row ''checked'' = Inr v" and "v \<noteq> PStr ''True''"
  shows "font_value hs row col = Inr (PyVal PNone)"
  using assms unfolding font_value_def by (simp add: py_eq_str)

text \<open>
  C5. The font branch strikes a row out exactly when its 'checked' field is the string
  "True": the struck-out font is returned for the row's address cell (column 3) if
  and only if the field equals that string, for no other cell, and never for the
  boolean True or the string "true".
\<close>

theorem strike_through_iff:
  "(data hs row 3 FontRole = Inr (QFont True True)) =
     (getSafeHostField hs row ''checked'' = Inr (PStr ''True''))
   \<and> ((\<exists>col. data hs row col FontRole = Inr (QFont True True)) =
     (getSafeHostField hs row ''checked'' = Inr (PStr ''True'')))
   \<and> ((data hs row col FontRole = Inr (QFont True True)) =
     (col = 3 \<and> getSafeHostField hs row ''checked'' = Inr (PStr ''True'')))
   \<and> (getSafeHostField hs row ''checked'' = Inr (PBool True) \<longrightarrow>
     data hs row col FontRole = Inr (PyVal PNone))
   \<and> (getSafeHostField hs row ''checked'' = Inr (PStr ''true'') \<longrightarrow>
     data hs row col FontRole = Inr (PyVal PNone))"
proof -
  have d: "\<And>c. data hs row c FontRole = font_value hs row c"
    by (simp add: data_def)
  have 1: "(data hs row 3 FontRole = Inr (QFont True True)) =
     (getSafeHostField hs row ''checked'' = Inr (PStr ''True''))"
    unfolding d font_value_iff by simp
  have 2: "(\<exists>col. data hs row col FontRole = Inr (QFont True True)) =
     (getSafeHostField hs row ''checked'' = Inr (PStr ''True''))"
    unfolding d font_value_iff by blast
  have 3: "(data hs row col FontRole = Inr (QFont True True)) =
     (col = 3 \<and> getSafeHostField hs row ''checked'' = Inr (PStr ''True''))"
    unfolding d by (rule font_value_iff)
  have 4: "getSafeHostField hs row ''checked'' = Inr (PBool True) \<longrightarrow>
     data hs row col FontRole = Inr (PyVal PNone)"
    unfolding d using font_value_other [of hs row "PBool True" col] by simp
  have 5: "getSafeHostField hs row ''checked'' = Inr (PStr ''true'') \<longrightarrow>
     data hs row col FontRole = Inr (PyVal PNone)"
    unfolding d using font_value_other [of hs row "PStr ''true''" col] by simp
  from 1 2 3 4 5 show ?thesis by blast
qed

theorem strike_through_iff_witness:
  "data [HDict [(''checked'', PStr ''True'')]] 0 3 FontRole = Inr (QFont True True)
   \<and> data [HDict [(''checked'', PBool True)]] 0 3 FontRole = Inr (PyVal PNone)
   \<and> data [HDict [(''checked'', PStr ''true'')]] 0 3 FontRole = Inr (PyVal PNone)"
proof -
  have a: "getSafeHostField [HDict [(''checked'', PStr ''True'')]] 0 ''checked'' =
      Inr (PStr ''True'')"
    by (simp add: getSafeHostField_def dict_get_def)
  have b: "getSafeHostField [HDict [(''checked'', PBool True)]] 0 ''checked'' =
      Inr (PBool True)"
    by (simp add: getSafeHostField_def dict_get_def)
  have c: "getSafeHostField [HDict [(''checked'', PStr ''true'')]] 0 ''checked'' =
      Inr (PStr ''true'')"
    by (simp add: getSafeHostField_def dict_get_def)
  show ?thesis
    using strike_through_iff [of "[HDict [(''checked'', PStr ''True'')]]" 0 3] a
      strike_through_iff [of "[HDict [(''checked'', PBool True)]]" 0 3] b
      strike_through_iff [of "[HDict [(''checked'', PStr ''true'')]]" 0 3] c
    by blast
qed

subsection \<open>The two lookups by address\<close>

lemma getRowForIp_single:
  "getRowForIp [HDict kvs] q =
     Inr (if py_eq (dict_get kvs ''ip'') q then Some 0 else None)"
  by (simp add: getRowForIp_def getSafeHostField_def)

lemma getHostCheckStatusForIp_single:
  "getHostCheckStatusForIp [HDict kvs] q =
     Inr (if py_str (dict_get kvs ''ip'') = py_str q then dict_get kvs ''checked'' else PNone)"
  by (simp add: getHostCheckStatusForIp_def getSafeHostField_def)

lemma py_str_5: "py_str (PInt 5) = ''5''"
  by (simp add: int_str_def nat_str.simps digit_char_def)

lemma lookups_disagree_at:
  "getRowForIp [HDict [(''ip'', PInt 5), (''checked'', PStr ''True'')]] (PStr ''5'') = Inr None
   \<and> getHostCheckStatusForIp [HDict [(''ip'', PInt 5), (''checked'', PStr ''True'')]]
        (PStr ''5'') = Inr (PStr ''True'')
   \<and> getHostCheckStatusForRow [HDict [(''ip'', PInt 5), (''checked'', PStr ''True'')]] 0 =
        Inr (PStr ''True'')"
proof -
  have i: "dict_get [(''ip'', PInt 5), (''checked'', PStr ''True'')] ''ip'' = PInt 5"
    by (simp add: dict_get_def)
  have c: "dict_get [(''ip'', PInt 5), (''checked'', PStr ''True'')] ''checked'' = PStr ''True''"
    by (simp add: dict_get_def)
  have r: "getHostCheckStatusForRow [HDict [(''ip'', PInt 5), (''checked'', PStr ''True'')]] 0 =
      Inr (PStr ''True'')"
    by (simp add: getHostCheckStatusForRow_def getSafeHostField_def c)
  show ?thesis
    unfolding getRowForIp_single getHostCheckStatusForIp_single i c r py_str_5
    by simp
qed

text \<open>The loops on a table of any length: rows that do not match are passed over.\<close>

lemma upt_split: "i < n \<Longrightarrow> [0..<n] = [0..<i] @ i # [Suc i..<n]"
  using upt_add_eq_append [of 0 i "n - i"] upt_conv_Cons [of i n] by simp

lemma rowForIp_loop_skip:
  assumes "\<forall>j\<in>set pre. \<exists>v. getSafeHostField hs (int j) ''ip'' = Inr v \<and> \<not> py_eq v q"
  shows "rowForIp_loop hs q (pre @ rest) = rowForIp_loop hs q rest"
  using assms by (induction pre) auto

lemma checkStatus_loop_skip:
  assumes "\<forall>j\<in>set pre. \<exists>v. getSafeHostField hs (int j) ''ip'' = Inr v \<and> py_str v \<noteq> py_str q"
  shows "checkStatus_loop hs q (pre @ rest) = checkStatus_loop hs q rest"
  using assms by (induction pre) auto

lemma getRowForIp_at:
  assumes "i < length hs"
    and "\<forall>j<i. \<exists>v. getSafeHostField hs (int j) ''ip'' = Inr v \<and> \<not> py_eq v q"
  shows "getRowForIp hs q =
     (case getSafeHostField hs (int i) ''ip'' of
        Inl e \<Rightarrow> Inl e
      | Inr v \<Rightarrow> if py_eq v q then Inr (Some i) else rowForIp_loop hs q [Suc i..<length hs])"
proof -
  from assms(2)
  have "\<forall>j\<in>set [0..<i]. \<exists>v. getSafeHostField hs (int j) ''ip'' = Inr v \<and> \<not> py_eq v q"
    by simp
  then have "rowForIp_loop hs q ([0..<i] @ i # [Suc i..<length hs]) =
      rowForIp_loop hs q (i # [Suc i..<length hs])"
    by (rule rowForIp_loop_skip)
  then show ?thesis
    unfolding getRowForIp_def upt_split [OF assms(1)] by simp
qed

lemma getRowForIp_none:
  assumes "\<forall>j<length hs. \<exists>v. getSafeHostField hs (int j) ''ip'' = Inr v \<and> \<not> py_eq v q"
  shows "getRowForIp hs q = Inr None"
proof -
  from assms
  have "\<forall>j\<in>set [0..<length hs]. \<exists>v. getSafeHostField hs (int j) ''ip'' = Inr v \<and> \<not> py_eq v q"
    by simp
  then have "rowForIp_loop hs q ([0..<length hs] @ []) = rowForIp_loop hs q []"
    by (rule rowForIp_loop_skip)
  then show ?thesis by (simp add: getRowForIp_def)
qed

lemma getHostCheckStatusForIp_at:
  assumes "i < length hs"
    and "\<forall>j<i. \<exists>v. getSafeHostField hs (int j) ''ip'' = Inr v \<and> py_str v \<noteq> py_str q"
  shows "getHostCheckStatusForIp hs q =
     (case getSafeHostField hs (int i) ''ip'' of
        Inl e \<Rightarrow> Inl e
      | Inr v \<Rightarrow>
          if py_str v = py_str q then getSafeHostField hs (int i) ''checked''
          else checkStatus_loop hs q [Suc i..<length hs])"
proof -
  from assms(2)
  have "\<forall>j\<in>set [0..<i]. \<exists>v. getSafeHostField hs (int j) ''ip'' = Inr v \<and> py_str v \<noteq> py_str q"
    by simp
  then have "checkStatus_loop hs q ([0..<i] @ i # [Suc i..<length hs]) =
      checkStatus_loop hs q (i # [Suc i..<length hs])"
    by (rule checkStatus_loop_skip)
  then show ?thesis
    unfolding getHostCheckStatusForIp_def upt_split [OF assms(1)] by simp
qed

lemma getHostCheckStatusForIp_none:
  assumes "\<forall>j<length hs. \<exists>v. getSafeHostField hs (int j) ''ip'' = Inr v \<and> py_str v \<noteq> py_str q"
  shows "getHostCheckStatusForIp hs q = Inr PNone"
proof -
  from assms
  have "\<forall>j\<in>set [0..<length hs].
      \<exists>v. getSafeHostField hs (int j) ''ip'' = Inr v \<and> py_str v \<noteq> py_str q"
    by simp
  then have "checkStatus_loop hs q ([0..<length hs] @ []) = checkStatus_loop hs q []"
    by (rule checkStatus_loop_skip)
  then show ?thesis by (simp add: getHostCheckStatusForIp_def)
qed

text \<open>
  C10. getRowForIp compares each row's ip with \<open>==\<close>: it returns the first row whose ip
  equals the query, after rows that do not, and None when no row does.
  getHostCheckStatusForIp compares \<open>str()\<close> of both sides: it returns the checked field
  of the first row whose ip has the query's string form, and None when no row has. An
  exception of the field access at the first row that is not passed over ends either
  lookup. So the two can disagree: with an ip stored as the int 5 and asked for as the
  string "5", the first finds no row and the second returns the checked value of row 0.
\<close>

theorem lookups_disagree:
  "(i < length hs
      \<and> (\<forall>j<i. \<exists>v. getSafeHostField hs (int j) ''ip'' = Inr v \<and> \<not> py_eq v q)
      \<and> getSafeHostField hs (int i) ''ip'' = Inr w \<and> py_eq w q \<longrightarrow>
      getRowForIp hs q = Inr (Some i))
   \<and> ((\<forall>j<length hs. \<exists>v. getSafeHostField hs (int j) ''ip'' = Inr v \<and> \<not> py_eq v q) \<longrightarrow>
      getRowForIp hs q = Inr None)
   \<and> (i < length hs
      \<and> (\<forall>j<i. \<exists>v. getSafeHostField hs (int j) ''ip'' = Inr v \<and> \<not> py_eq v q)
      \<and> getSafeHostField hs (int i) ''ip'' = Inl e \<longrightarrow>
      getRowForIp hs q = Inl e)
   \<and> (i < length hs
      \<and> (\<forall>j<i. \<exists>v. getSafeHostField hs (int j) ''ip'' = Inr v \<and> py_str v \<noteq> py_str q)
      \<and> getSafeHostField hs (int i) ''ip'' = Inr w \<and> py_str w = py_str q \<longrightarrow>
      getHostCheckStatusForIp hs q = getSafeHostField hs (int i) ''checked'')
   \<and> ((\<forall>j<length hs. \<exists>v. getSafeHostField hs (int j) ''ip'' = Inr v
        \<and> py_str v \<noteq> py_str q) \<longrightarrow>
      getHostCheckStatusForIp hs q = Inr PNone)
   \<and> (i < length hs
      \<and> (\<forall>j<i. \<exists>v. getSafeHostField hs (int j) ''ip'' = Inr v \<and> py_str v \<noteq> py_str q)
      \<and> getSafeHostField hs (int i) ''ip'' = Inl e \<longrightarrow>
      getHostCheckStatusForIp hs q = Inl e)
   \<and> getRowForIp [HDict kvs] q =
     Inr (if py_eq (dict_get kvs ''ip'') q then Some 0 else None)
   \<and> getHostCheckStatusForIp [HDict kvs] q =
     Inr (if py_str (dict_get kvs ''ip'') = py_str q then dict_get kvs ''checked'' else PNone)
   \<and> getRowForIp [HDict [(''ip'', PInt 5), (''checked'', PStr ''True'')]] (PStr ''5'') =
     Inr None
   \<and> getHostCheckStatusForIp [HDict [(''ip'', PInt 5), (''checked'', PStr ''True'')]]
        (PStr ''5'') = Inr (PStr ''True'')
   \<and> getHostCheckStatusForRow [HDict [(''ip'', PInt 5), (''checked'', PStr ''True'')]] 0 =
        Inr (PStr ''True'')
   \<and> (\<exists>hs query v. getRowForIp hs query = Inr None
        \<and> getHostCheckStatusForIp hs query = Inr v
        \<and> getHostCheckStatusForRow hs 0 = Inr v \<and> v \<noteq> PNone)"
proof -
  have 1: "i < length hs
      \<and> (\<forall>j<i. \<exists>v. getSafeHostField hs (int j) ''ip'' = Inr v \<and> \<not> py_eq v q)
      \<and> getSafeHostField hs (int i) ''ip'' = Inr w \<and> py_eq w q \<longrightarrow>
      getRowForIp hs q = Inr (Some i)"
    by (auto simp: getRowForIp_at)
  have 2: "(\<forall>j<length hs. \<exists>v. getSafeHostField hs (int j) ''ip'' = Inr v \<and> \<not> py_eq v q) \<longrightarrow>
      getRowForIp hs q = Inr None"
    using getRowForIp_none by blast
  have 3: "i < length hs
      \<and> (\<forall>j<i. \<exists>v. getSafeHostField hs (int j) ''ip'' = Inr v \<and> \<not> py_eq v q)
      \<and> getSafeHostField hs (int i) ''ip'' = Inl e \<longrightarrow>
      getRowForIp hs q = Inl e"
    by (auto simp: getRowForIp_at)
  have 4: "i < length hs
      \<and> (\<forall>j<i. \<exists>v. getSafeHostField hs (int j) ''ip'' = Inr v \<and> py_str v \<noteq> py_str q)
      \<and> getSafeHostField hs (int i) ''ip'' = Inr w \<and> py_str w = py_str q \<longrightarrow>
      getHostCheckStatusForIp hs q = getSafeHostField hs (int i) ''checked''"
    by (auto simp: getHostCheckStatusForIp_at)
  have 5: "(\<forall>j<length hs. \<exists>v. getSafeHostField hs (int j) ''ip'' = Inr v
        \<and> py_str v \<noteq> py_str q) \<longrightarrow>
      getHostCheckStatusForIp hs q = Inr PNone"
    using getHostCheckStatusForIp_none by blast
  have 6: "i < length hs
      \<and> (\<forall>j<i. \<exists>v. getSafeHostField hs (int j) ''ip'' = Inr v \<and> py_str v \<noteq> py_str q)
      \<and> getSafeHostField hs (int i) ''ip'' = Inl e \<longrightarrow>
      getHostCheckStatusForIp hs q = Inl e"
    by (auto simp: getHostCheckStatusForIp_at)
  have 7: "\<exists>hs query v. getRowForIp hs query = Inr None
        \<and> getHostCheckStatusForIp hs query = Inr v
        \<and> getHostCheckStatusForRow hs 0 = Inr v \<and> v \<noteq> PNone"
    using lookups_disagree_at by blast
  from 1 2 3 4 5 6 7 getRowForIp_single [of kvs q] getHostCheckStatusForIp_single [of kvs q]
    lookups_disagree_at
  show ?thesis by (intro conjI) blast+
qed

theorem lookups_disagree_witness:
  "getRowForIp [HDict [(''ip'', PStr ''a'')], HDict [(''ip'', PInt 5), (''checked'', PStr ''x'')]]
      (PInt 5) = Inr (Some 1)
   \<and> getRowForIp [HDict [(''ip'', PStr ''a'')], HDict [(''ip'', PInt 5), (''checked'', PStr ''x'')]]
      (PStr ''5'') = Inr None
   \<and> getHostCheckStatusForIp
      [HDict [(''ip'', PStr ''a'')], HDict [(''ip'', PInt 5), (''checked'', PStr ''x'')]]
      (PStr ''5'') = Inr (PStr ''x'')"
proof -
  let ?hs = "[HDict [(''ip'', PStr ''a'')], HDict [(''ip'', PInt 5), (''checked'', PStr ''x'')]]"
  have f0: "getSafeHostField ?hs (int 0) ''ip'' = Inr (PStr ''a'')"
    by (simp add: getSafeHostField_def dict_get_def)
  have f1: "getSafeHostField ?hs (int 1) ''ip'' = Inr (PInt 5)"
    by (simp add: getSafeHostField_def dict_get_def)
  have c1: "getSafeHostField ?hs (int 1) ''checked'' = Inr (PStr ''x'')"
    by (simp add: getSafeHostField_def dict_get_def)
  have len: "(1::nat) < length ?hs" by simp
  have pre_eq: "\<forall>j<1. \<exists>v. getSafeHostField ?hs (int j) ''ip'' = Inr v \<and> \<not> py_eq v (PInt 5)"
    using f0 by simp
  have pre_str: "\<forall>j<1. \<exists>v. getSafeHostField ?hs (int j) ''ip'' = Inr v
      \<and> py_str v \<noteq> py_str (PStr ''5'')"
    using f0 by simp
  have all_eq: "\<forall>j<length ?hs. \<exists>v. getSafeHostField ?hs (int j) ''ip'' = Inr v
      \<and> \<not> py_eq v (PStr ''5'')"
  proof (intro allI impI)
    fix j assume "j < length ?hs"
    then have "j = 0 \<or> j = 1" by auto
    then show "\<exists>v. getSafeHostField ?hs (int j) ''ip'' = Inr v \<and> \<not> py_eq v (PStr ''5'')"
      using f0 f1 by auto
  qed
  have a: "getRowForIp ?hs (PInt 5) = Inr (Some 1)"
    using lookups_disagree [of 1 ?hs "PInt 5" "PInt 5" IndexError "[]"] len pre_eq f1
    by simp
  have b: "getRowForIp ?hs (PStr ''5'') = Inr None"
    using lookups_disagree [of 1 ?hs "PStr ''5''" "PInt 5" IndexError "[]"] all_eq
    by blast
  have "getHostCheckStatusForIp ?hs (PStr ''5'') = getSafeHostField ?hs (int 1) ''checked''"
    using lookups_disagree [of 1 ?hs "PStr ''5''" "PInt 5" IndexError "[]"] len pre_str f1
      py_str_5
    by simp
  then have c: "getHostCheckStatusForIp ?hs (PStr ''5'') = Inr (PStr ''x'')"
    by (simp only: c1)
  from a b c show ?thesis by blast
qed

subsection \<open>Sorting: what every call keeps\<close>

lemma hosts_emit [simp]: "hosts (emit s st) = hosts st"
  by (simp add: emit_def)

lemma logged_emit [simp]: "logged (emit s st) = logged st"
  by (simp add: emit_def)

lemma emitted_emit [simp]: "emitted (emit s st) = emitted st @ [(s, hosts st)]"
  by (simp add: emit_def)

lemma ip_keys_length:
  "ip_keys f hs = (Inr ks, l) \<Longrightarrow> length ks = length hs"
proof (induction hs arbitrary: ks l)
  case Nil
  then show ?case by simp
next
  case (Cons h hs)
  then show ?case
    by (auto split: sum.splits prod.splits)
qed

lemma os_keys_length:
  "os_keys hs idx = Inr vs \<Longrightarrow> length vs = length idx"
proof (induction idx arbitrary: vs)
  case Nil
  then show ?case by simp
next
  case (Cons i idx)
  then show ?case
    by (auto split: sum.splits)
qed

lemma mset_map_snd_zip:
  assumes "length ks = length xs"
  shows "image_mset snd (mset (zip ks xs)) = mset xs"
proof -
  have "image_mset snd (mset (zip ks xs)) = mset (map snd (zip ks xs))" by simp
  also have "\<dots> = mset xs" using assms by simp
  finally show ?thesis .
qed

lemma mset_list_sort:
  assumes "length ks = length xs"
  shows "mset (list_sort ks xs r) = mset xs"
  using mset_map_snd_zip [OF assms] by (simp add: list_sort_def)

lemma sort_pairs_mset:
  assumes "length ks = length xs" and "sort_pairs ks xs r = Inr ys"
  shows "mset ys = mset xs"
  using assms by (auto simp: sort_pairs_def mset_list_sort split: if_splits)

lemma sortByOS_mset: "mset (hosts (snd (sortByOS st order))) = mset (hosts st)"
proof (cases "os_keys (hosts st) [0..<length (hosts st)]")
  case (Inl e)
  then show ?thesis by (simp add: sortByOS_def)
next
  case (Inr array)
  then have len: "length array = length (hosts st)"
    using os_keys_length by fastforce
  show ?thesis
  proof (cases "sort_pairs array (hosts st) (order = DescendingOrder)")
    case (Inl e)
    with Inr show ?thesis by (simp add: sortByOS_def)
  next
    case r: (Inr ys)
    with len have "mset ys = mset (hosts st)" by (rule sort_pairs_mset)
    with Inr r show ?thesis by (simp add: sortByOS_def)
  qed
qed

text \<open>
  C6. For every column and direction, and whatever IP2Int does, the table after sort
  holds the same records as before, each as often as before: sort only reorders. This
  covers the OS path, which rebuilds the list from its pairs, and the calls that raise,
  which leave the table as it was.
\<close>

theorem sort_permutation:
  "mset (hosts (snd (sort_hosts IP2Int st Ncol order))) = mset (hosts st)"
proof -
  let ?st1 = "emit LayoutAboutToBeChanged st"
  consider (ip) "Ncol = 0 \<or> Ncol = 3" | (os) "Ncol = 1" | (other) "Ncol \<noteq> 0" "Ncol \<noteq> 3" "Ncol \<noteq> 1"
    by blast
  then show ?thesis
  proof cases
    case ip
    obtain r l where k: "ip_keys IP2Int (hosts st) = (r, l)" by (cases "ip_keys IP2Int (hosts st)")
    show ?thesis
    proof (cases r)
      case (Inl e)
      with ip k show ?thesis by (simp add: sort_hosts_def Let_def)
    next
      case (Inr ks)
      with k have "length ks = length (hosts st)" using ip_keys_length by blast
      then have "mset (list_sort ks (hosts st) (order = DescendingOrder)) = mset (hosts st)"
        by (rule mset_list_sort)
      with ip k Inr show ?thesis by (simp add: sort_hosts_def Let_def)
    qed
  next
    case os
    have "mset (hosts (snd (sortByOS ?st1 order))) = mset (hosts ?st1)"
      by (rule sortByOS_mset)
    with os show ?thesis by (simp add: sort_hosts_def Let_def)
  next
    case other
    then show ?thesis by (simp add: sort_hosts_def Let_def)
  qed
qed

text \<open>
  C8. For a column other than 0, 1 and 3, in either direction, sort returns normally
  and leaves the table, order and content, exactly as it was; it logs nothing and
  emits its two signals.
\<close>

theorem sort_other_columns:
  assumes "Ncol \<noteq> 0" and "Ncol \<noteq> 1" and "Ncol \<noteq> 3"
  shows "fst (sort_hosts IP2Int st Ncol order) = None
    \<and> hosts (snd (sort_hosts IP2Int st Ncol order)) = hosts st
    \<and> logged (snd (sort_hosts IP2Int st Ncol order)) = logged st
    \<and> emitted (snd (sort_hosts IP2Int st Ncol order)) =
        emitted st @ [(LayoutAboutToBeChanged, hosts st), (LayoutChanged, hosts st)]"
  using assms by (simp add: sort_hosts_def Let_def)

theorem sort_other_columns_witness:
  "hosts (snd (sort_hosts (\<lambda>v. Inr None)
      \<lparr>hosts = [HDict [(''ip'', PStr ''b'')], HDict [(''ip'', PStr ''a'')]],
       emitted = [], logged = []\<rparr> 2 DescendingOrder)) =
     [HDict [(''ip'', PStr ''b'')], HDict [(''ip'', PStr ''a'')]]
   \<and> fst (sort_hosts (\<lambda>v. Inr None)
      \<lparr>hosts = [HDict [(''ip'', PStr ''b'')], HDict [(''ip'', PStr ''a'')]],
       emitted = [], logged = []\<rparr> 2 DescendingOrder) = None"
  using sort_other_columns [of 2 "\<lambda>v. Inr None"
      "\<lparr>hosts = [HDict [(''ip'', PStr ''b'')], HDict [(''ip'', PStr ''a'')]],
       emitted = [], logged = []\<rparr>" DescendingOrder]
  by simp

subsection \<open>Sorting by address\<close>

lemma ip_key_ok:
  assumes "host_ip h = Inr ip"
  shows "ip_key f h = Inr (ip_sort_key f h, ip_log f h)"
  using assms
  by (simp add: ip_key_def ip_sort_key_def ip_log_def split: sum.split option.split)

lemma record_ok_host_ip: "record_ok h \<Longrightarrow> \<exists>ip. host_ip h = Inr ip"
  by (cases h) (simp_all add: host_ip_def seq_index_def)

lemma ip_keys_ok:
  assumes "list_all record_ok hs"
  shows "ip_keys f hs = (Inr (map (ip_sort_key f) hs), concat (map (ip_log f) hs))"
  using assms
proof (induction hs)
  case Nil
  then show ?case by simp
next
  case (Cons h hs)
  then obtain ip where "host_ip h = Inr ip"
    using record_ok_host_ip by auto
  then have "ip_key f h = Inr (ip_sort_key f h, ip_log f h)"
    by (rule ip_key_ok)
  with Cons show ?case by simp
qed

lemma insort_key_pair:
  "insort_key fst (k a, a) (map (\<lambda>x. (k x, x)) ys) =
     map (\<lambda>x. (k x, x)) (insort_key k a ys)"
  by (induction ys) simp_all

lemma sort_key_pair:
  "sort_key fst (map (\<lambda>x. (k x, x)) xs) = map (\<lambda>x. (k x, x)) (sort_key k xs)"
  by (induction xs) (simp_all add: insort_key_pair)

lemma zip_map_self: "zip (map k xs) xs = map (\<lambda>x. (k x, x)) xs"
  by (induction xs) simp_all

lemma list_sort_asc: "list_sort (map k xs) xs False = sort_key k xs"
  by (simp add: list_sort_def zip_map_self sort_key_pair comp_def)

lemma list_sort_desc: "list_sort (map k xs) xs True = rev (sort_key k (rev xs))"
proof -
  have "rev (zip (map k xs) xs) = map (\<lambda>x. (k x, x)) (rev xs)"
    by (simp add: zip_map_self rev_map)
  then show ?thesis
    by (simp add: list_sort_def sort_key_pair comp_def rev_map)
qed

lemma list_sort_stable:
  "filter (\<lambda>x. k x = v) (list_sort (map k xs) xs r) = filter (\<lambda>x. k x = v) xs"
proof (cases r)
  case True
  have "filter (\<lambda>x. k x = v) (rev (sort_key k (rev xs))) =
      rev (filter (\<lambda>x. k x = v) (sort_key k (rev xs)))"
    by (simp add: rev_filter)
  also have "\<dots> = rev (filter (\<lambda>x. k x = v) (rev xs))"
    by (simp only: sort_key_stable)
  also have "\<dots> = filter (\<lambda>x. k x = v) xs"
    by (simp add: rev_filter)
  finally show ?thesis using True by (simp add: list_sort_desc)
next
  case False
  then show ?thesis by (simp add: list_sort_asc sort_key_stable)
qed

lemma list_sort_sorted:
  "sorted (map k (list_sort (map k xs) xs False))"
  "sorted (rev (map k (list_sort (map k xs) xs True)))"
  by (simp_all add: list_sort_asc list_sort_desc rev_map)

text \<open>
  On a table of dicts and 2-tuples, sorting on column 0 or 3 returns normally, orders
  the records by their key (ascending, or descending), keeps records of equal keys in
  their order, and logs each error of IP2Int instead of raising it.
\<close>

lemma sort_by_ip:
  fixes IP2Int :: ip2int and st :: model and Ncol :: int and order :: sort_order
  assumes ok: "list_all record_ok (hosts st)" and col: "Ncol = 0 \<or> Ncol = 3"
  defines "st' \<equiv> snd (sort_hosts IP2Int st Ncol order)"
  shows "fst (sort_hosts IP2Int st Ncol order) = None"
    and "hosts st' =
      list_sort (map (ip_sort_key IP2Int) (hosts st)) (hosts st) (order = DescendingOrder)"
    and "order = AscendingOrder \<Longrightarrow> sorted (map (ip_sort_key IP2Int) (hosts st'))"
    and "order = DescendingOrder \<Longrightarrow> sorted (rev (map (ip_sort_key IP2Int) (hosts st')))"
    and "filter (\<lambda>h. ip_sort_key IP2Int h = v) (hosts st') =
      filter (\<lambda>h. ip_sort_key IP2Int h = v) (hosts st)"
    and "logged st' = logged st @ concat (map (ip_log IP2Int) (hosts st))"
    and "emitted st' =
      emitted st @ [(LayoutAboutToBeChanged, hosts st), (LayoutChanged, hosts st')]"
proof -
  have k: "ip_keys IP2Int (hosts st) =
      (Inr (map (ip_sort_key IP2Int) (hosts st)), concat (map (ip_log IP2Int) (hosts st)))"
    using ok by (rule ip_keys_ok)
  show 1: "fst (sort_hosts IP2Int st Ncol order) = None"
    using col k by (simp add: sort_hosts_def Let_def)
  show 2: "hosts st' =
      list_sort (map (ip_sort_key IP2Int) (hosts st)) (hosts st) (order = DescendingOrder)"
    using col k by (simp add: st'_def sort_hosts_def Let_def)
  show "order = AscendingOrder \<Longrightarrow> sorted (map (ip_sort_key IP2Int) (hosts st'))"
    using list_sort_sorted(1) [of "ip_sort_key IP2Int" "hosts st"] by (simp add: 2)
  show "order = DescendingOrder \<Longrightarrow> sorted (rev (map (ip_sort_key IP2Int) (hosts st')))"
    using list_sort_sorted(2) [of "ip_sort_key IP2Int" "hosts st"] by (simp add: 2)
  show "filter (\<lambda>h. ip_sort_key IP2Int h = v) (hosts st') =
      filter (\<lambda>h. ip_sort_key IP2Int h = v) (hosts st)"
    unfolding 2 by (rule list_sort_stable)
  show "logged st' = logged st @ concat (map (ip_log IP2Int) (hosts st))"
    using col k by (simp add: st'_def sort_hosts_def Let_def)
  show "emitted st' =
      emitted st @ [(LayoutAboutToBeChanged, hosts st), (LayoutChanged, hosts st')]"
    using col k by (simp add: st'_def sort_hosts_def Let_def)
qed

text \<open>
  C4. The claim that the sort never raises because of one record fails on the code:
  \<open>host[0]\<close> is read outside the \<open>try\<close>. On the table of a model built with no
  arguments, \<open>[[]]\<close>, sorting on column 0 raises IndexError, whatever IP2Int is.
\<close>

theorem sort_by_ip_raises:
  "sort_hosts IP2Int default_model 0 order =
     (Some IndexError,
      \<lparr>hosts = [HList []], emitted = [(LayoutAboutToBeChanged, [HList []])], logged = []\<rparr>)"
  by (simp add: sort_hosts_def default_model_def Let_def emit_def ip_key_def host_ip_def
      seq_index_def)

subsection \<open>The two signals\<close>

text \<open>A call that returns normally has emitted exactly its two signals, the first
  with the table as it was and the second with the table as it is left.\<close>

lemma sortByOS_emitted:
  assumes "fst (sortByOS st order) = None"
  shows "emitted (snd (sortByOS st order)) =
     emitted st @ [(LayoutChanged, hosts (snd (sortByOS st order)))]"
  using assms by (auto simp: sortByOS_def split: sum.splits)

lemma sort_bracketed:
  fixes IP2Int :: ip2int and st :: model and Ncol :: int and order :: sort_order
  assumes "fst (sort_hosts IP2Int st Ncol order) = None"
  defines "st' \<equiv> snd (sort_hosts IP2Int st Ncol order)"
  shows "emitted st' =
     emitted st @ [(LayoutAboutToBeChanged, hosts st), (LayoutChanged, hosts st')]"
proof -
  let ?st1 = "emit LayoutAboutToBeChanged st"
  consider (ip) "Ncol = 0 \<or> Ncol = 3" | (os) "Ncol = 1" | (other) "Ncol \<noteq> 0" "Ncol \<noteq> 3" "Ncol \<noteq> 1"
    by blast
  then show ?thesis
  proof cases
    case ip
    with assms(1) show ?thesis
      by (auto simp: st'_def sort_hosts_def Let_def split: prod.splits sum.splits)
  next
    case os
    then have eq: "sort_hosts IP2Int st Ncol order = sortByOS ?st1 order"
      by (simp add: sort_hosts_def Let_def)
    with assms(1) have "fst (sortByOS ?st1 order) = None" by simp
    then have "emitted (snd (sortByOS ?st1 order)) =
        emitted ?st1 @ [(LayoutChanged, hosts (snd (sortByOS ?st1 order)))]"
      by (rule sortByOS_emitted)
    then show ?thesis by (simp add: st'_def eq)
  next
    case other
    then show ?thesis by (simp add: st'_def sort_hosts_def Let_def)
  qed
qed

text \<open>
  C7. The claim that every call is bracketed by both signals fails on the code, by the
  same unguarded \<open>host[0]\<close>: on the table \<open>[[]]\<close> a sort on column 3 emits
  layoutAboutToBeChanged, raises IndexError and never emits layoutChanged.
\<close>

theorem sort_raise_unbracketed:
  "fst (sort_hosts IP2Int default_model 3 order) = Some IndexError
   \<and> emitted (snd (sort_hosts IP2Int default_model 3 order)) =
       [(LayoutAboutToBeChanged, [HList []])]"
  by (simp add: sort_hosts_def default_model_def Let_def emit_def ip_key_def host_ip_def
      seq_index_def)

subsection \<open>Calls that return normally\<close>

text \<open>The osMatch field of a record, as getSafeHostField resolves it.\<close>

lemma getSafeHostField_osMatch:
  assumes "i < length hs"
  shows "getSafeHostField hs (int i) ''osMatch'' =
     Inr (case hs ! i of HDict kvs \<Rightarrow> dict_get kvs ''osMatch'' | _ \<Rightarrow> PNone)"
  using assms by (simp add: getSafeHostField_def split: host.split)

lemma py_or_text: "is_text v \<Longrightarrow> str_of (py_or v (PStr [])) \<noteq> None"
  by (cases v) (simp_all add: py_or_def)

lemma os_keys_text:
  assumes "\<forall>i\<in>set idx. i < length hs \<and>
      is_text (case hs ! i of HDict kvs \<Rightarrow> dict_get kvs ''osMatch'' | _ \<Rightarrow> PNone)"
  shows "\<exists>vs. os_keys hs idx = Inr vs \<and> list_all (\<lambda>k. str_of k \<noteq> None) vs"
  using assms
proof (induction idx)
  case Nil
  then show ?case by simp
next
  case (Cons i idx)
  then obtain vs where vs: "os_keys hs idx = Inr vs" "list_all (\<lambda>k. str_of k \<noteq> None) vs"
    by auto
  from Cons.prems have i: "i < length hs"
    "is_text (case hs ! i of HDict kvs \<Rightarrow> dict_get kvs ''osMatch'' | _ \<Rightarrow> PNone)"
    by auto
  from i(1) have "getSafeHostField hs (int i) ''osMatch'' =
      Inr (case hs ! i of HDict kvs \<Rightarrow> dict_get kvs ''osMatch'' | _ \<Rightarrow> PNone)"
    by (rule getSafeHostField_osMatch)
  with vs py_or_text [OF i(2)] show ?case by simp
qed

text \<open>
  On a table of dicts and 2-tuples whose osMatch fields are strings or absent, sort
  returns normally on every column, and has then emitted exactly its two signals
  around the reordering.
\<close>

lemma sort_returns:
  assumes ok: "list_all record_ok (hosts st)"
    and os: "list_all (\<lambda>h. is_text (case h of HDict kvs \<Rightarrow> dict_get kvs ''osMatch''
        | _ \<Rightarrow> PNone)) (hosts st)"
  shows "fst (sort_hosts IP2Int st Ncol order) = None"
proof -
  consider (ip) "Ncol = 0 \<or> Ncol = 3" | (os) "Ncol = 1"
    | (other) "Ncol \<noteq> 0" "Ncol \<noteq> 3" "Ncol \<noteq> 1"
    by blast
  then show ?thesis
  proof cases
    case ip
    with ok show ?thesis by (rule sort_by_ip(1))
  next
    case os
    have "\<forall>i\<in>set [0..<length (hosts st)]. i < length (hosts st) \<and>
        is_text (case hosts st ! i of HDict kvs \<Rightarrow> dict_get kvs ''osMatch'' | _ \<Rightarrow> PNone)"
      using assms(2) by (simp add: list_all_length)
    then obtain vs where vs: "os_keys (hosts st) [0..<length (hosts st)] = Inr vs"
      "list_all (\<lambda>k. str_of k \<noteq> None) vs"
      using os_keys_text by blast
    then have "\<exists>ys. sort_pairs vs (hosts st) (order = DescendingOrder) = Inr ys"
      by (simp add: sort_pairs_def)
    then obtain ys where "sort_pairs vs (hosts st) (order = DescendingOrder) = Inr ys"
      by blast
    with vs os show ?thesis
      by (simp add: sort_hosts_def sortByOS_def Let_def)
  next
    case other
    then show ?thesis by (simp add: sort_hosts_def Let_def)
  qed
qed

subsection \<open>The address key\<close>

text \<open>Facts on the dotted-quad parser that stands for IP2Int.\<close>

lemma octet_le: "octet s = Some n \<Longrightarrow> n \<le> 255"
  by (auto simp: octet_def split: if_splits option.splits)

lemma those_octets:
  "those (map octet ps) = Some ns \<Longrightarrow> \<forall>n\<in>set ns. n \<le> 255"
proof (induction ps arbitrary: ns)
  case Nil
  then show ?case by simp
next
  case (Cons p ps)
  then show ?case by (auto split: option.splits dest: octet_le)
qed

lemma quad_value_bound:
  assumes "length ns = 4" and "\<forall>n\<in>set ns. n \<le> 255"
  shows "quad_value ns < 2 ^ 32"
proof -
  from assms(1) obtain a b c d where ns: "ns = [a, b, c, d]"
    by (auto simp: length_Suc_conv numeral_eq_Suc)
  with assms(2) have "a \<le> 255" "b \<le> 255" "c \<le> 255" "d \<le> 255" by auto
  then have "((a * 256 + b) * 256 + c) * 256 + d < 4294967296" by simp
  with ns show ?thesis by (simp add: quad_value_def)
qed

lemma IP2Int_model_range:
  assumes "IP2Int_model v = Inr (Some r)"
  shows "0 \<le> r \<and> r < 2 ^ 32"
proof -
  from assms obtain s ns where s: "v = PStr s"
    and ns: "those (map octet (split_dot s)) = Some ns" "length ns = 4"
    and r: "r = int (quad_value ns)"
    by (auto simp: IP2Int_model_def split: pyval.splits option.splits if_splits)
  from ns(1) have "\<forall>n\<in>set ns. n \<le> 255"
    by (rule those_octets)
  with ns(2) have "quad_value ns < 2 ^ 32" by (rule quad_value_bound)
  with r show ?thesis by simp
qed

text \<open>With this IP2Int, 0 is the least key, and the key of every record whose ip does
  not parse.\<close>

lemma ip_sort_key_model_nonneg: "0 \<le> ip_sort_key IP2Int_model h"
proof (cases "host_ip h")
  case (Inl e)
  then show ?thesis by (simp add: ip_sort_key_def)
next
  case (Inr ip)
  show ?thesis
  proof (cases "IP2Int_model ip")
    case (Inl e)
    with Inr show ?thesis by (simp add: ip_sort_key_def)
  next
    case r: (Inr x)
    show ?thesis
    proof (cases x)
      case None
      with Inr r show ?thesis by (simp add: ip_sort_key_def)
    next
      case (Some n)
      with r have "0 \<le> n" using IP2Int_model_range by blast
      with Inr r Some show ?thesis by (simp add: ip_sort_key_def)
    qed
  qed
qed

lemma ip_sort_key_error:
  assumes "host_ip h = Inr ip" and "IP2Int ip = Inl e"
  shows "ip_sort_key IP2Int h = 0" and "ip_log IP2Int h = [(h, e)]"
  using assms by (simp_all add: ip_sort_key_def ip_log_def)


text \<open>
  The example of the spec: sorting the addresses 10.0.0.5, 10.0.0.2 and bad-ip on
  column 0 puts the unparsable one first ascending and last descending, and logs it.
\<close>

lemma ip_key_examples:
  "ip_sort_key IP2Int_model (HDict [(''ip'', PStr ''10.0.0.5'')]) = 167772165"
  "ip_sort_key IP2Int_model (HDict [(''ip'', PStr ''10.0.0.2'')]) = 167772162"
  "ip_sort_key IP2Int_model (HDict [(''ip'', PStr ''bad-ip'')]) = 0"
  "ip_log IP2Int_model (HDict [(''ip'', PStr ''10.0.0.5'')]) = []"
  "ip_log IP2Int_model (HDict [(''ip'', PStr ''10.0.0.2'')]) = []"
  "ip_log IP2Int_model (HDict [(''ip'', PStr ''bad-ip'')]) =
     [(HDict [(''ip'', PStr ''bad-ip'')], ValueError)]"
  by (simp_all add: ip_sort_key_def ip_log_def host_ip_def dict_get_def IP2Int_model_def
      octet_def digit_val_def quad_value_def)

lemma sort_example:
  fixes st :: model
  defines "st \<equiv> \<lparr>hosts = [HDict [(''ip'', PStr ''10.0.0.5'')],
      HDict [(''ip'', PStr ''10.0.0.2'')], HDict [(''ip'', PStr ''bad-ip'')]],
      emitted = [], logged = []\<rparr>"
  shows "hosts (snd (sort_hosts IP2Int_model st 0 AscendingOrder)) =
      [HDict [(''ip'', PStr ''bad-ip'')], HDict [(''ip'', PStr ''10.0.0.2'')],
       HDict [(''ip'', PStr ''10.0.0.5'')]]"
    and "hosts (snd (sort_hosts IP2Int_model st 0 DescendingOrder)) =
      [HDict [(''ip'', PStr ''10.0.0.5'')], HDict [(''ip'', PStr ''10.0.0.2'')],
       HDict [(''ip'', PStr ''bad-ip'')]]"
    and "logged (snd (sort_hosts IP2Int_model st 0 AscendingOrder)) =
      [(HDict [(''ip'', PStr ''bad-ip'')], ValueError)]"
proof -
  have ok: "list_all record_ok (hosts st)" by (simp add: st_def)
  have col: "(0::int) = 0 \<or> (0::int) = 3" by simp
  show "hosts (snd (sort_hosts IP2Int_model st 0 AscendingOrder)) =
      [HDict [(''ip'', PStr ''bad-ip'')], HDict [(''ip'', PStr ''10.0.0.2'')],
       HDict [(''ip'', PStr ''10.0.0.5'')]]"
    unfolding sort_by_ip(2) [OF ok col]
    by (simp add: st_def list_sort_def ip_key_examples)
  show "hosts (snd (sort_hosts IP2Int_model st 0 DescendingOrder)) =
      [HDict [(''ip'', PStr ''10.0.0.5'')], HDict [(''ip'', PStr ''10.0.0.2'')],
       HDict [(''ip'', PStr ''bad-ip'')]]"
    unfolding sort_by_ip(2) [OF ok col]
    by (simp add: st_def list_sort_def ip_key_examples)
  show "logged (snd (sort_hosts IP2Int_model st 0 AscendingOrder)) =
      [(HDict [(''ip'', PStr ''bad-ip'')], ValueError)]"
    unfolding sort_by_ip(6) [OF ok col]
    by (simp add: st_def ip_key_examples)
qed

end
